theory Spec2Isabelle
  imports Main "HOL-Library.Word"
begin

unbundle bit_operations_syntax

section \<open>The console driver of xv6 (kernel/console.c), as a shallow embedding\<close>

text \<open>
  The driver keeps one global struct \<open>cons\<close>: a circular buffer of \<open>INPUT_BUF = 128\<close>
  chars and three \<open>uint\<close> indices \<open>r\<close>, \<open>w\<close>, \<open>e\<close> (32 bits wide, so \<open>+\<close> and \<open>-\<close> on
  them wrap modulo \<open>2 ^ 32\<close>), and the terminal flags. Every function body between
  \<open>acquire(&cons.lock)\<close> and the next \<open>release\<close> or \<open>sleep\<close> is one atomic step of the
  model; the lock itself is not a field.

  What the driver does to the outside (the uart, \<open>procdump\<close>, \<open>wakeup\<close>) is recorded
  as a trace of events in the field \<open>out\<close>, in the order of the calls.
\<close>

subsection \<open>Data\<close>

datatype event =
    Uartputc_sync "32 word"
  | Uartputc "8 word"
  | Procdump
  | Wakeup
  | Uartinit
  | Printf "32 word"

record termios =
  c_lflag :: "32 word"

record console =
  buf :: "8 word list"
  r :: "32 word"
  w :: "32 word"
  e :: "32 word"
  termios :: termios
  out :: "event list"

text \<open>
  The headers \<open>termios.h\<close> and \<open>ioctl.h\<close> are not part of the sources at hand: the two
  flag masks and the two request codes they define are parameters of the model, and so
  is the address of \<open>cons.termios\<close> (the value of \<open>(uint64)&(cons.termios)\<close>).
\<close>

record params =
  ECHO :: "32 word"
  ICANON :: "32 word"
  TCGETA :: "32 word"
  TCSETA :: "32 word"
  cons_termios_addr :: "64 word"

definition INPUT_BUF :: nat where
  "INPUT_BUF = 128"

definition BACKSPACE :: "32 word" where
  "BACKSPACE = 0x100"

text \<open>\<open>C(x) = x - '@'\<close>: \<open>C('D') = 4\<close>, \<open>C('H') = 8\<close>, \<open>C('P') = 16\<close>, \<open>C('U') = 21\<close>.\<close>

definition ctrl_D :: "32 word" where "ctrl_D = 4"
definition ctrl_H :: "32 word" where "ctrl_H = 8"
definition ctrl_P :: "32 word" where "ctrl_P = 16"
definition ctrl_U :: "32 word" where "ctrl_U = 21"

subsection \<open>Memory of the caller\<close>

text \<open>
  Modelled from the spec: \<open>either_copyout\<close> and \<open>either_copyin\<close> are defined in proc.c,
  which is not among the sources. The spec says that a destination may be a privileged
  or an unprivileged region and that a single copy step may fail. The address space a
  descriptor points into is a set of mapped addresses and the bytes stored there; a copy
  to or from a user address that is not mapped fails (the C function returns \<open>-1\<close>,
  here \<open>None\<close>), a copy to or from a kernel address is a plain \<open>memmove\<close> and does
  not fail.
\<close>

record mem =
  mapped :: "64 word \<Rightarrow> bool"
  bytes :: "64 word \<Rightarrow> 8 word"

definition either_copyout :: "32 word \<Rightarrow> 64 word \<Rightarrow> 8 word \<Rightarrow> mem \<Rightarrow> mem option" where
  "either_copyout user_dst dst c m =
     (if user_dst \<noteq> 0 \<and> \<not> mapped m dst then None
      else Some (m\<lparr>bytes := (bytes m)(dst := c)\<rparr>))"

definition either_copyin :: "32 word \<Rightarrow> 64 word \<Rightarrow> mem \<Rightarrow> 8 word option" where
  "either_copyin user_src src m =
     (if user_src \<noteq> 0 \<and> \<not> mapped m src then None else Some (bytes m src))"

text \<open>
  Modelled from the spec: the same two functions at the size of a \<open>struct termios\<close>,
  as \<open>consoleioctl\<close> calls them, always with a user address. The layout of the struct
  is not known, so the memory they work on maps an address to a whole struct.
\<close>

type_synonym tmem = "64 word \<Rightarrow> termios option"

definition copyout_termios :: "64 word \<Rightarrow> termios \<Rightarrow> tmem \<Rightarrow> tmem option" where
  "copyout_termios dst t m = (if m dst = None then None else Some (m(dst \<mapsto> t)))"

definition copyin_termios :: "64 word \<Rightarrow> tmem \<Rightarrow> termios option" where
  "copyin_termios src m = m src"

subsection \<open>Output\<close>

definition uartputc_sync :: "32 word \<Rightarrow> console \<Rightarrow> console" where
  "uartputc_sync c s = s\<lparr>out := out s @ [Uartputc_sync c]\<rparr>"

definition uartputc :: "8 word \<Rightarrow> console \<Rightarrow> console" where
  "uartputc c s = s\<lparr>out := out s @ [Uartputc c]\<rparr>"

definition procdump :: "console \<Rightarrow> console" where
  "procdump s = s\<lparr>out := out s @ [Procdump]\<rparr>"

definition wakeup :: "console \<Rightarrow> console" where
  "wakeup s = s\<lparr>out := out s @ [Wakeup]\<rparr>"

definition consputc :: "32 word \<Rightarrow> console \<Rightarrow> console" where
  "consputc c s =
     (if c = BACKSPACE
      then uartputc_sync 8 (uartputc_sync 32 (uartputc_sync 8 s))
      else uartputc_sync c s)"

subsection \<open>consolewrite\<close>

text \<open>
  \<open>for(i = 0; i < n; i++)\<close> with \<open>int i, n\<close>: the comparison is signed. The loop stops at
  the first byte that cannot be copied in and returns the number of bytes sent.
\<close>

function consolewrite_loop ::
  "32 word \<Rightarrow> 64 word \<Rightarrow> 32 word \<Rightarrow> 32 word \<Rightarrow> mem \<Rightarrow> console \<Rightarrow> 32 word \<times> console" where
  "consolewrite_loop user_src src n i m s =
     (if i <s n then
        (case either_copyin user_src (src + scast i) m of
           None \<Rightarrow> (i, s)
         | Some c \<Rightarrow> consolewrite_loop user_src src n (i + 1) m (uartputc c s))
      else (i, s))"
  by pat_completeness auto
termination
proof (relation "measure (\<lambda>(user_src, src, n, i, m, s). nat (sint n - sint i))")
  show "wf (measure (\<lambda>(user_src, src, n, i, m, s). nat (sint n - sint i)))"
    by simp
next
  fix user_src :: "32 word" and src :: "64 word" and n i :: "32 word"
    and m :: mem and s :: console and c :: "8 word"
  assume lt: "i <s n"
  have "sint n \<le> 2 ^ 31 - 1"
    using sint_lt [of n] by simp
  with lt have up: "sint i + 1 \<le> 2 ^ 31 - 1"
    by (simp add: word_sless_alt)
  have lo: "- (2 ^ 31) \<le> sint i"
    using sint_ge [of i] by simp
  have "sint (i + 1) = signed_take_bit 31 (sint i + 1)"
    by (simp add: sint_word_ariths)
  also have "\<dots> = sint i + 1"
    using up lo by (simp add: signed_take_bit_int_eq_self)
  finally have "sint (i + 1) = sint i + 1" .
  with lt show "((user_src, src, n, i + 1, m, uartputc c s), (user_src, src, n, i, m, s))
      \<in> measure (\<lambda>(user_src, src, n, i, m, s). nat (sint n - sint i))"
    by (simp add: word_sless_alt)
qed

declare consolewrite_loop.simps [simp del]

definition consolewrite :: "32 word \<Rightarrow> 64 word \<Rightarrow> 32 word \<Rightarrow> mem \<Rightarrow> console \<Rightarrow> 32 word \<times> console" where
  "consolewrite user_src src n m s = consolewrite_loop user_src src n 0 m s"

subsection \<open>consoleread\<close>

text \<open>
  A call either returns a value or goes to sleep in \<open>sleep(&cons.r, &cons.lock)\<close>,
  which gives the lock up. A sleeping call keeps its locals \<open>dst\<close> and \<open>n\<close>; when it is
  woken it takes the lock again and tests \<open>cons.r == cons.w\<close> again, which is what
  entering \<open>consoleread_loop\<close> with the saved locals does (\<open>n > 0\<close> still holds then).
  \<open>killed\<close> is what \<open>myproc()->killed\<close> reads while the lock is held.

  \<open>n\<close> is an \<open>int\<close> and \<open>target\<close> a \<open>uint\<close>: \<open>n > 0\<close> is a signed comparison,
  \<open>n < target\<close> an unsigned one. \<open>c = cons.buf[...]\<close> widens a \<open>char\<close>, which is
  unsigned on RISC-V, to \<open>int\<close>; \<open>cbuf = c\<close> narrows it again.
\<close>

datatype read_result = Returned "32 word" | Asleep "64 word" "32 word"

text \<open>The value of \<open>c\<close> after \<open>c = cons.buf[cons.r++ % INPUT_BUF]\<close>.\<close>

definition next_char :: "console \<Rightarrow> 32 word" where
  "next_char s = ucast (buf s ! (unat (r s) mod INPUT_BUF))"

function consoleread_loop ::
  "params \<Rightarrow> bool \<Rightarrow> 32 word \<Rightarrow> 32 word \<Rightarrow> 64 word \<Rightarrow> 32 word \<Rightarrow> console \<Rightarrow> mem
     \<Rightarrow> read_result \<times> console \<times> mem" where
  "consoleread_loop P killed target user_dst dst n s m =
     (if 0 <s n then
        (if r s = w s then
           (if killed then (Returned (- 1), s, m) else (Asleep dst n, s, m))
         else if next_char s = ctrl_D \<and> c_lflag (termios s) AND ICANON P \<noteq> 0 then
           (Returned (target - n),
            (if n < target then s\<lparr>r := r s + 1\<rparr>\<lparr>r := r s + 1 - 1\<rparr> else s\<lparr>r := r s + 1\<rparr>),
            m)
         else
           (case either_copyout user_dst dst (ucast (next_char s)) m of
              None \<Rightarrow> (Returned (target - n), s\<lparr>r := r s + 1\<rparr>, m)
            | Some m' \<Rightarrow>
                if next_char s = 10 \<and> c_lflag (termios s) AND ICANON P \<noteq> 0
                then (Returned (target - (n - 1)), s\<lparr>r := r s + 1\<rparr>, m')
                else consoleread_loop P killed target user_dst (dst + 1) (n - 1)
                       (s\<lparr>r := r s + 1\<rparr>) m'))
      else (Returned (target - n), s, m))"
  by pat_completeness auto
termination
proof (relation "measure (\<lambda>(P, killed, target, user_dst, dst, n, s, m). unat n)")
  show "wf (measure (\<lambda>(P, killed, target, user_dst, dst, n, s, m). unat n))"
    by simp
next
  fix P :: params and killed :: bool and target user_dst n :: "32 word"
    and dst :: "64 word" and s :: console and m x2 :: mem
  assume "0 <s n"
  then have "n \<noteq> 0"
    by auto
  then have "unat (n - 1) < unat n"
    by (simp add: unat_minus_one unat_gt_0)
  then show "((P, killed, target, user_dst, dst + 1, n - 1, s\<lparr>r := r s + 1\<rparr>, x2),
        (P, killed, target, user_dst, dst, n, s, m))
      \<in> measure (\<lambda>(P, killed, target, user_dst, dst, n, s, m). unat n)"
    by simp
qed

declare consoleread_loop.simps [simp del]

definition consoleread ::
  "params \<Rightarrow> bool \<Rightarrow> 32 word \<Rightarrow> 64 word \<Rightarrow> 32 word \<Rightarrow> console \<Rightarrow> mem
     \<Rightarrow> read_result \<times> console \<times> mem" where
  "consoleread P killed user_dst dst n s m = consoleread_loop P killed n user_dst dst n s m"

subsection \<open>consoleintr\<close>

text \<open>The loop of the case \<open>C('U')\<close>.\<close>

function kill_line :: "console \<Rightarrow> console" where
  "kill_line s =
     (if e s \<noteq> w s \<and> buf s ! (unat (e s - 1) mod INPUT_BUF) \<noteq> 10
      then kill_line (consputc BACKSPACE (s\<lparr>e := e s - 1\<rparr>))
      else s)"
  by pat_completeness auto
termination
proof (relation "measure (\<lambda>s. unat (e s - w s))")
  show "wf (measure (\<lambda>s. unat (e s - w s)))"
    by simp
next
  fix s :: console
  assume "e s \<noteq> w s \<and> buf s ! (unat (e s - 1) mod INPUT_BUF) \<noteq> 10"
  then have "e s - w s \<noteq> 0"
    by simp
  then have "unat (e s - w s - 1) < unat (e s - w s)"
    by (simp add: unat_minus_one unat_gt_0)
  moreover have "e s - w s - 1 = e s - 1 - w s"
    by simp
  ultimately have "unat (e s - 1 - w s) < unat (e s - w s)"
    by (simp only:)
  then show "(consputc BACKSPACE (s\<lparr>e := e s - 1\<rparr>), s) \<in> measure (\<lambda>s. unat (e s - w s))"
    by (simp add: consputc_def uartputc_sync_def)
qed

declare kill_line.simps [simp del]

text \<open>The \<open>switch\<close>, entered only when \<open>ICANON\<close> is set.\<close>

definition consoleintr_edit :: "params \<Rightarrow> 32 word \<Rightarrow> console \<Rightarrow> console" where
  "consoleintr_edit P c s =
     (if c_lflag (termios s) AND ICANON P \<noteq> 0 then
        (if c = ctrl_P then procdump s
         else if c = ctrl_U then kill_line s
         else if c = ctrl_H \<or> c = 0x7f then
           (if e s \<noteq> w s then consputc BACKSPACE (s\<lparr>e := e s - 1\<rparr>) else s)
         else s)
      else s)"

text \<open>
  The \<open>if\<close> after the \<open>switch\<close>, which every character reaches. \<open>cons.buf[...] = c\<close>
  narrows the \<open>int\<close> to a \<open>char\<close>. Both branches of the inner \<open>if\<close> are written out
  as the source has them.
\<close>

definition consoleintr_store :: "params \<Rightarrow> 32 word \<Rightarrow> console \<Rightarrow> console" where
  "consoleintr_store P c0 s =
     (if c0 \<noteq> 0 \<and> e s - r s < 128 then
        (let c = (if c0 = 13 then 10 else c0);
             s2 = (if c_lflag (termios s) AND ECHO P \<noteq> 0 then consputc c s else s);
             s3 = s2\<lparr>buf := (buf s2)[unat (e s2) mod INPUT_BUF := ucast c], e := e s2 + 1\<rparr>
         in if c = 10 \<or> c = ctrl_D \<or> e s3 = r s3 + 128
               \<or> c_lflag (termios s3) AND ICANON P = 0
            then wakeup (s3\<lparr>w := e s3\<rparr>)
            else wakeup (s3\<lparr>w := e s3\<rparr>))
      else s)"

definition consoleintr :: "params \<Rightarrow> 32 word \<Rightarrow> console \<Rightarrow> console" where
  "consoleintr P c s = consoleintr_store P c (consoleintr_edit P c s)"

subsection \<open>consoleioctl\<close>

text \<open>
  With \<open>TCGETA\<close> the struct \<open>cons.termios\<close> is copied out to the user address
  \<open>termios_p\<close>. With \<open>TCSETA\<close> the source calls
  \<open>either_copyin(&termios_p, 1, (uint64)&(cons.termios), sizeof(struct termios))\<close>:
  the destination is the local pointer variable \<open>termios_p\<close> and the source is the user
  address whose number is the address of \<open>cons.termios\<close>. The struct read there ends in
  the local, which is not used again; what the copy does to the stack beyond the
  local is outside the model.
\<close>

definition consoleioctl ::
  "params \<Rightarrow> 32 word \<Rightarrow> 64 word \<Rightarrow> tmem \<Rightarrow> console \<Rightarrow> 32 word \<times> tmem \<times> console" where
  "consoleioctl P req ttyctl tm s =
     (if req \<noteq> TCGETA P \<and> req \<noteq> TCSETA P then (- 1, tm, s)
      else if req = TCGETA P then
        (case copyout_termios ttyctl (termios s) tm of
           None \<Rightarrow> (- 1, tm, s)
         | Some tm' \<Rightarrow> (0, tm', s))
      else
        (case copyin_termios (cons_termios_addr P) tm of
           None \<Rightarrow> (- 1, tm, s)
         | Some termios_p \<Rightarrow> (0, tm, s)))"

subsection \<open>consoleinit\<close>

text \<open>
  \<open>cons\<close> is a global, so it starts zeroed; \<open>consoleinit\<close> sets the flags and prints
  them. The lock and the entries of \<open>devsw\<close> it also sets up are not part of the model.
\<close>

definition consoleinit :: "params \<Rightarrow> console" where
  "consoleinit P =
     \<lparr>buf = replicate INPUT_BUF 0, r = 0, w = 0, e = 0,
      termios = \<lparr>c_lflag = ECHO P OR ICANON P\<rparr>,
      out = [Uartinit, Printf (ECHO P OR ICANON P)]\<rparr>"

subsection \<open>The console as a system\<close>

text \<open>
  The states the console can be in between two critical sections. A state is the struct
  \<open>cons\<close> together with the calls of \<open>consoleread\<close> that are asleep, each with its locals
  \<open>target\<close>, \<open>user_dst\<close>, \<open>dst\<close> and \<open>n\<close>. A step is one interrupt, one call of
  \<open>consoleread\<close> up to its return or its first sleep, one sleeping call woken (for
  whatever reason) and run up to its return or its next sleep, one \<open>consolewrite\<close> or one
  \<open>consoleioctl\<close>. The memory of the callers and the \<open>killed\<close> flag are not under the
  control of the driver and are arbitrary at each step. \<open>consolewrite\<close> does not take the
  lock; it touches nothing but the uart, so it is taken as one step.
\<close>

type_synonym sleeper = "32 word \<times> 32 word \<times> 64 word \<times> 32 word"

inductive reachable :: "params \<Rightarrow> console \<times> sleeper list \<Rightarrow> bool" for P :: params where
  init: "reachable P (consoleinit P, [])"
| intr: "reachable P (s, sl) \<Longrightarrow> reachable P (consoleintr P c s, sl)"
| read_returns:
    "reachable P (s, sl) \<Longrightarrow> consoleread P killed user_dst dst n s m = (Returned v, s', m')
       \<Longrightarrow> reachable P (s', sl)"
| read_sleeps:
    "reachable P (s, sl) \<Longrightarrow> consoleread P killed user_dst dst n s m = (Asleep dst' n', s', m')
       \<Longrightarrow> reachable P (s', (n, user_dst, dst', n') # sl)"
| woken_returns:
    "reachable P (s, sl) \<Longrightarrow> (target, user_dst, dst, n) \<in> set sl
       \<Longrightarrow> consoleread_loop P killed target user_dst dst n s m = (Returned v, s', m')
       \<Longrightarrow> reachable P (s', remove1 (target, user_dst, dst, n) sl)"
| woken_sleeps:
    "reachable P (s, sl) \<Longrightarrow> (target, user_dst, dst, n) \<in> set sl
       \<Longrightarrow> consoleread_loop P killed target user_dst dst n s m = (Asleep dst' n', s', m')
       \<Longrightarrow> reachable P (s', (target, user_dst, dst', n') # remove1 (target, user_dst, dst, n) sl)"
| write_call: "reachable P (s, sl) \<Longrightarrow> reachable P (snd (consolewrite user_src src n m s), sl)"
| ioctl_call: "reachable P (s, sl) \<Longrightarrow> reachable P (snd (snd (consoleioctl P req ttyctl tm s)), sl)"

text \<open>What holds of \<open>cons\<close> between critical sections (shown below).\<close>

definition cons_inv :: "console \<Rightarrow> bool" where
  "cons_inv s \<longleftrightarrow> length (buf s) = INPUT_BUF \<and> w s = e s \<and> e s - r s \<le> 128"

subsection \<open>Concrete runs\<close>

text \<open>
  For the runs on concrete input the parameters take the values of Linux's headers
  (\<open>ECHO = 010\<close>, \<open>ICANON = 02\<close>, \<open>TCGETA = 0x5405\<close>, \<open>TCSETA = 0x5406\<close>) and \<open>cons.termios\<close>
  sits at some kernel address. \<open>kernel_mem\<close> is a zeroed kernel buffer, the destination
  of a read with \<open>user_dst = 0\<close>.
\<close>

definition linux_params :: params where
  "linux_params =
     \<lparr>ECHO = 8, ICANON = 2, TCGETA = 0x5405, TCSETA = 0x5406, cons_termios_addr = 0x80010000\<rparr>"

definition kernel_mem :: mem where
  "kernel_mem = \<lparr>mapped = (\<lambda>a. False), bytes = (\<lambda>a. 0)\<rparr>"


text \<open>
  The interrupt handler of the uart calls \<open>consoleintr\<close> once for each character it
  has received; \<open>feed\<close> does so for a list of characters.
\<close>

definition feed :: "params \<Rightarrow> 32 word list \<Rightarrow> console \<Rightarrow> console" where
  "feed P cs s = fold (consoleintr P) cs s"

text \<open>
  The memory of a caller of \<open>ioctl\<close> that holds, at \<open>0x2000\<close>, a \<open>struct termios\<close> with
  no flag set: a request for raw mode without echo.
\<close>

definition raw_request :: tmem where
  "raw_request = (\<lambda>a. if a = 0x2000 then Some \<lparr>c_lflag = 0\<rparr> else None)"

text \<open>
  One key press (the letter \<open>a\<close>) followed by a \<open>read\<close> of one byte into a kernel buffer,
  and the state after \<open>2 ^ 32 - 1\<close> such rounds and one more key press.
\<close>

definition type_and_read :: "params \<Rightarrow> console \<Rightarrow> console" where
  "type_and_read P s = fst (snd (consoleread P False 0 0 1 (consoleintr P 0x61 s) kernel_mem))"

definition wrapped :: console where
  "wrapped = consoleintr linux_params 0x61
     ((type_and_read linux_params ^^ 4294967295) (consoleinit linux_params))"

text \<open>
  Two ways of speaking about a whole call of \<open>consoleread\<close>: \<open>unread s k\<close> is the list
  of the \<open>k\<close> bytes that \<open>k\<close> executions of \<open>c = cons.buf[cons.r++ % INPUT_BUF]\<close> would
  pop from \<open>s\<close>, and \<open>copy_all\<close> is the memory after the bytes of a list have been
  copied out one by one with \<open>either_copyout\<close> to \<open>dst\<close>, \<open>dst + 1\<close>, ..., as the loop
  does with \<open>dst++\<close>; it is \<open>None\<close> when one of the copies fails.
\<close>

primrec unread :: "console \<Rightarrow> nat \<Rightarrow> 8 word list" where
  "unread s 0 = []"
| "unread s (Suc k) = buf s ! (unat (r s) mod INPUT_BUF) # unread (s\<lparr>r := r s + 1\<rparr>) k"

primrec copy_all :: "32 word \<Rightarrow> 64 word \<Rightarrow> 8 word list \<Rightarrow> mem \<Rightarrow> mem option" where
  "copy_all user_dst dst [] m = Some m"
| "copy_all user_dst dst (b # bs) m =
     (case either_copyout user_dst dst b m of
        None \<Rightarrow> None
      | Some m' \<Rightarrow> copy_all user_dst (dst + 1) bs m')"

section \<open>Properties\<close>

subsection \<open>Words and bytes\<close>

lemma byte_widen_narrow: "(ucast (ucast (b :: 8 word) :: 32 word) :: 8 word) = b"
  by (rule ucast_up_ucast_id) (simp add: is_up)

lemma idx_push: "(a :: 32 word) - b < 128 \<Longrightarrow> a + 1 - b \<le> 128"
proof -
  assume "a - b < 128"
  then have "(a - b) + 1 \<le> 128" by (rule inc_le)
  moreover have "a + 1 - b = (a - b) + 1" by simp
  ultimately show ?thesis by (simp only:)
qed

lemma idx_pop: "(a :: 32 word) \<noteq> b \<Longrightarrow> a - b \<le> 128 \<Longrightarrow> a - (b + 1) \<le> 128"
proof -
  assume ne: "a \<noteq> b" and le: "a - b \<le> 128"
  from ne have "a - b \<noteq> 0" by simp
  then have "a - b - 1 \<le> a - b"
    by (simp add: word_le_nat_alt unat_minus_one)
  from this le have "a - b - 1 \<le> 128" by (rule order_trans)
  moreover have "a - (b + 1) = a - b - 1" by simp
  ultimately show ?thesis by (simp only:)
qed

lemma kill_line_committed: "e s = w s \<Longrightarrow> kill_line s = s"
  by (subst kill_line.simps) simp

lemma consoleintr_edit_committed:
  "w s = e s \<Longrightarrow> consoleintr_edit P c s =
     (if c_lflag (termios s) AND ICANON P \<noteq> 0 \<and> c = ctrl_P then procdump s else s)"
  by (simp add: consoleintr_edit_def kill_line_committed)

lemma consoleintr_store_inv: "cons_inv s \<Longrightarrow> cons_inv (consoleintr_store P c s)"
  by (simp add: cons_inv_def consoleintr_store_def Let_def wakeup_def consputc_def
        uartputc_sync_def idx_push)

lemma procdump_inv: "cons_inv s \<Longrightarrow> cons_inv (procdump s)"
  by (simp add: cons_inv_def procdump_def)

lemma consoleintr_inv: "cons_inv s \<Longrightarrow> cons_inv (consoleintr P c s)"
proof -
  assume inv: "cons_inv s"
  then have "w s = e s" by (simp add: cons_inv_def)
  then have "cons_inv (consoleintr_edit P c s)"
    using inv by (simp add: consoleintr_edit_committed procdump_inv)
  then show ?thesis
    unfolding consoleintr_def by (rule consoleintr_store_inv)
qed

lemma pop_inv: "cons_inv s \<Longrightarrow> r s \<noteq> w s \<Longrightarrow> cons_inv (s\<lparr>r := r s + 1\<rparr>)"
  by (auto simp: cons_inv_def intro: idx_pop)

lemma consoleread_loop_inv:
  "cons_inv s \<Longrightarrow> cons_inv (fst (snd (consoleread_loop P killed target user_dst dst n s m)))"
proof (induction P killed target user_dst dst n s m rule: consoleread_loop.induct)
  case (1 P killed target user_dst dst n s m)
  note inv = \<open>cons_inv s\<close>
  show ?case
  proof (cases "0 <s n \<and> r s \<noteq> w s")
    case False
    then show ?thesis
      using inv by (auto simp add: consoleread_loop.simps[of P killed target user_dst dst n s m])
  next
    case True
    then have pop: "cons_inv (s\<lparr>r := r s + 1\<rparr>)"
      using inv by (simp add: pop_inv)
    have undo: "s\<lparr>r := r s + 1\<rparr>\<lparr>r := r s + 1 - 1\<rparr> = s"
      by simp
    show ?thesis
    proof (cases "next_char s = ctrl_D \<and> c_lflag (termios s) AND ICANON P \<noteq> 0")
      case eof: True
      with True show ?thesis
        using inv pop by (simp add: undo del: consoleread_loop.simps add: consoleread_loop.simps[of P killed target user_dst dst n s m])
    next
      case noeof: False
      show ?thesis
      proof (cases "either_copyout user_dst dst (ucast (next_char s)) m")
        case None
        with True noeof show ?thesis
          using inv pop by (auto simp add: consoleread_loop.simps[of P killed target user_dst dst n s m])
      next
        case (Some m')
        show ?thesis
        proof (cases "next_char s = 10 \<and> c_lflag (termios s) AND ICANON P \<noteq> 0")
          case nl: True
          with True noeof Some show ?thesis
            using inv pop by (auto simp add: consoleread_loop.simps[of P killed target user_dst dst n s m])
        next
          case nonl: False
          have "cons_inv (fst (snd (consoleread_loop P killed target user_dst (dst + 1) (n - 1)
                  (s\<lparr>r := r s + 1\<rparr>) m')))"
            using "1.IH"[of m'] True noeof Some nonl pop by simp
          with True noeof Some nonl show ?thesis
            by (auto simp add: consoleread_loop.simps[of P killed target user_dst dst n s m])
        qed
      qed
    qed
  qed
qed

lemma consolewrite_loop_fields:
  "snd (consolewrite_loop user_src src n i m s) = s\<lparr>out := out (snd (consolewrite_loop user_src src n i m s))\<rparr>"
proof (induction user_src src n i m s rule: consolewrite_loop.induct)
  case (1 user_src src n i m s)
  show ?case
  proof (cases "i <s n")
    case False
    then show ?thesis
      by (simp add: consolewrite_loop.simps[of user_src src n i m s])
  next
    case True
    show ?thesis
    proof (cases "either_copyin user_src (src + scast i) m")
      case None
      with True show ?thesis
        by (simp add: consolewrite_loop.simps[of user_src src n i m s])
    next
      case (Some c)
      from "1.IH"[OF True Some]
      have "snd (consolewrite_loop user_src src n (i + 1) m (uartputc c s)) =
            (uartputc c s)\<lparr>out := out (snd (consolewrite_loop user_src src n (i + 1) m (uartputc c s)))\<rparr>" .
      with True Some show ?thesis
        by (simp add: uartputc_def consolewrite_loop.simps[of user_src src n i m s])
    qed
  qed
qed

lemma consolewrite_inv: "cons_inv s \<Longrightarrow> cons_inv (snd (consolewrite user_src src n m s))"
proof -
  assume inv: "cons_inv s"
  have "snd (consolewrite user_src src n m s) = s\<lparr>out := out (snd (consolewrite user_src src n m s))\<rparr>"
    unfolding consolewrite_def by (rule consolewrite_loop_fields)
  then have "cons_inv (snd (consolewrite user_src src n m s)) = cons_inv (s\<lparr>out := out (snd (consolewrite user_src src n m s))\<rparr>)"
    by simp
  also have "\<dots> = cons_inv s"
    by (simp add: cons_inv_def)
  finally show ?thesis using inv by simp
qed

lemma consoleioctl_console: "snd (snd (consoleioctl P req ttyctl tm s)) = s"
  by (simp add: consoleioctl_def split: option.splits)

lemma consoleinit_inv: "cons_inv (consoleinit P)"
  by (simp add: cons_inv_def consoleinit_def)

lemma reachable_inv: "reachable P (s, sl) \<Longrightarrow> cons_inv s"
proof (induction "(s, sl)" arbitrary: s sl rule: reachable.induct)
  case init
  show ?case by (rule consoleinit_inv)
next
  case (intr s sl c)
  then show ?case by (simp add: consoleintr_inv)
next
  case (read_returns s sl killed user_dst dst n m v s' m')
  then show ?case
    using consoleread_loop_inv[of s P killed n user_dst dst n m] by (simp add: consoleread_def)
next
  case (read_sleeps s sl killed user_dst dst n m dst' n' s' m')
  then show ?case
    using consoleread_loop_inv[of s P killed n user_dst dst n m] by (simp add: consoleread_def)
next
  case (woken_returns s sl target user_dst dst n killed m v s' m')
  then show ?case
    using consoleread_loop_inv[of s P killed target user_dst dst n m] by simp
next
  case (woken_sleeps s sl target user_dst dst n killed m dst' n' s' m')
  then show ?case
    using consoleread_loop_inv[of s P killed target user_dst dst n m] by simp
next
  case (write_call s sl user_src src n m)
  then show ?case by (simp add: consolewrite_inv)
next
  case (ioctl_call s sl req ttyctl tm)
  then show ?case by (simp add: consoleioctl_console)
qed

subsection \<open>What each function leaves alone\<close>

lemma consoleread_loop_fields:
  "fst (snd (consoleread_loop P killed target user_dst dst n s m))
     = s\<lparr>r := r (fst (snd (consoleread_loop P killed target user_dst dst n s m)))\<rparr>"
proof (induction P killed target user_dst dst n s m rule: consoleread_loop.induct)
  case (1 P killed target user_dst dst n s m)
  note unfold = consoleread_loop.simps[of P killed target user_dst dst n s m]
  show ?case
  proof (cases "0 <s n \<and> r s \<noteq> w s
      \<and> \<not> (next_char s = ctrl_D \<and> c_lflag (termios s) AND ICANON P \<noteq> 0)")
    case False
    then show ?thesis
      by (auto simp add: unfold)
  next
    case True
    show ?thesis
    proof (cases "either_copyout user_dst dst (ucast (next_char s)) m")
      case None
      with True show ?thesis
        by (auto simp add: unfold)
    next
      case (Some m')
      show ?thesis
      proof (cases "next_char s = 10 \<and> c_lflag (termios s) AND ICANON P \<noteq> 0")
        case nl: True
        with True Some show ?thesis
          by (auto simp add: unfold)
      next
        case nonl: False
        have "fst (snd (consoleread_loop P killed target user_dst (dst + 1) (n - 1) (s\<lparr>r := r s + 1\<rparr>) m'))
            = s\<lparr>r := r s + 1\<rparr>\<lparr>r := r (fst (snd (consoleread_loop P killed target user_dst (dst + 1) (n - 1)
                  (s\<lparr>r := r s + 1\<rparr>) m')))\<rparr>"
          using "1.IH"[of m'] True Some nonl by simp
        then have "fst (snd (consoleread_loop P killed target user_dst (dst + 1) (n - 1) (s\<lparr>r := r s + 1\<rparr>) m'))
            = s\<lparr>r := r (fst (snd (consoleread_loop P killed target user_dst (dst + 1) (n - 1)
                  (s\<lparr>r := r s + 1\<rparr>) m')))\<rparr>"
          by simp
        with True Some nonl show ?thesis
          by (auto simp add: unfold)
      qed
    qed
  qed
qed

lemma consoleread_loop_e: "e (fst (snd (consoleread_loop P killed target user_dst dst n s m))) = e s"
  by (subst consoleread_loop_fields) simp

lemma consolewrite_e: "e (snd (consolewrite user_src src n m s)) = e s"
  unfolding consolewrite_def by (subst consolewrite_loop_fields) simp

lemma consoleintr_store_e:
  "e (consoleintr_store P c s) = e s \<or> e (consoleintr_store P c s) = e s + 1"
  by (simp add: consoleintr_store_def Let_def wakeup_def consputc_def uartputc_sync_def)

lemma consoleintr_commits: "w s = e s \<Longrightarrow> w (consoleintr P c s) = e (consoleintr P c s)"
proof -
  assume eq: "w s = e s"
  then have "w (consoleintr_edit P c s) = e (consoleintr_edit P c s)"
    by (simp add: consoleintr_edit_committed procdump_def)
  then show ?thesis
    by (simp add: consoleintr_def consoleintr_store_def Let_def wakeup_def)
qed

lemma consoleintr_store_accepts:
  assumes "c \<noteq> 0" and "e s - r s < 128"
  shows "e (consoleintr_store P c s) = e s + 1 \<and> w (consoleintr_store P c s) = e s + 1
    \<and> last (out (consoleintr_store P c s)) = Wakeup"
  using assms
  by (simp add: consoleintr_store_def Let_def wakeup_def consputc_def uartputc_sync_def)

subsection \<open>Reading a character\<close>

lemma next_char_eq_ctrl_D: "next_char s = ctrl_D \<longleftrightarrow> buf s ! (unat (r s) mod INPUT_BUF) = 4"
proof -
  have "(ucast (b :: 8 word) :: 32 word) = 4 \<longleftrightarrow> b = 4" for b
  proof
    assume "(ucast b :: 32 word) = 4"
    then have "(ucast (ucast b :: 32 word) :: 8 word) = ucast (4 :: 32 word)"
      by simp
    then show "b = 4"
      by (simp add: byte_widen_narrow)
  next
    assume "b = 4"
    then show "(ucast b :: 32 word) = 4" by simp
  qed
  then show ?thesis
    by (simp add: next_char_def ctrl_D_def)
qed

lemma cbuf_next_char: "ucast (next_char s) = buf s ! (unat (r s) mod INPUT_BUF)"
  by (simp add: next_char_def byte_widen_narrow)

lemma next_char_eq_newline: "next_char s = 10 \<longleftrightarrow> buf s ! (unat (r s) mod INPUT_BUF) = 10"
proof -
  have "(ucast (b :: 8 word) :: 32 word) = 10 \<longleftrightarrow> b = 10" for b
  proof
    assume "(ucast b :: 32 word) = 10"
    then have "(ucast (ucast b :: 32 word) :: 8 word) = ucast (10 :: 32 word)"
      by simp
    then show "b = 10"
      by (simp add: byte_widen_narrow)
  next
    assume "b = 10"
    then show "(ucast b :: 32 word) = 10" by simp
  qed
  then show ?thesis
    by (simp add: next_char_def)
qed

lemma sint_pred: "0 <s (n :: 32 word) \<Longrightarrow> sint (n - 1) = sint n - 1"
proof -
  assume "0 <s n"
  then have pos: "0 < sint n" by (simp add: word_sless_alt)
  have up: "sint n < 2 ^ 31" using sint_lt [of n] by simp
  have "sint (n - 1) = signed_take_bit 31 (sint n - 1)"
    by (simp add: sint_word_ariths)
  also have "\<dots> = sint n - 1"
    using pos up by (simp add: signed_take_bit_int_eq_self)
  finally show ?thesis .
qed

lemma committed_pred:
  "Suc k < unat ((a :: 32 word) - b) \<Longrightarrow> a \<noteq> b \<and> k < unat (a - (b + 1))"
proof -
  assume lt: "Suc k < unat (a - b)"
  then have ne: "a - b \<noteq> 0" by auto
  then have "unat (a - b - 1) = unat (a - b) - 1" by (rule unat_minus_one)
  moreover have "a - (b + 1) = a - b - 1" by simp
  ultimately have "unat (a - (b + 1)) = unat (a - b) - 1" by (simp only:)
  with lt ne show ?thesis by auto
qed

lemma consoleread_loop_eof:
  assumes "0 <s n" and "r s \<noteq> w s"
    and "buf s ! (unat (r s) mod INPUT_BUF) = 4"
    and "c_lflag (termios s) AND ICANON P \<noteq> 0"
  shows "consoleread_loop P killed target user_dst dst n s m
           = (Returned (target - n), (if n < target then s else s\<lparr>r := r s + 1\<rparr>), m)"
  using assms
  by (simp add: next_char_eq_ctrl_D consoleread_loop.simps[of P killed target user_dst dst n s m])

text \<open>
  A call in canonical mode that finds the bytes \<open>bs\<close>, none of them a control-D or a
  newline, followed by a control-D: the loop copies \<open>bs\<close> and stops at the control-D.
\<close>

lemma consoleread_loop_line:
  assumes canonical: "c_lflag (termios s) AND ICANON P \<noteq> 0"
  shows "unread s (Suc (length bs)) = bs @ [4] \<Longrightarrow> 4 \<notin> set bs \<Longrightarrow> 10 \<notin> set bs
    \<Longrightarrow> length bs < unat (w s - r s) \<Longrightarrow> int (length bs) < sint n
    \<Longrightarrow> copy_all user_dst dst bs m = Some m'
    \<Longrightarrow> consoleread_loop P killed target user_dst dst n s m
        = (Returned (target - (n - of_nat (length bs))),
           (if n - of_nat (length bs) < target then s\<lparr>r := r s + of_nat (length bs)\<rparr>
            else s\<lparr>r := r s + of_nat (length bs) + 1\<rparr>),
           m')"
  using canonical
proof (induction bs arbitrary: dst n s m)
  case Nil
  from Nil.prems have "0 <s n" "r s \<noteq> w s" "buf s ! (unat (r s) mod INPUT_BUF) = 4"
    by (auto simp: word_sless_alt)
  with Nil.prems show ?case
    by (simp add: consoleread_loop_eof)
next
  case (Cons b bs)
  from Cons.prems have pos: "0 <s n"
    by (simp add: word_sless_alt)
  from Cons.prems have head: "buf s ! (unat (r s) mod INPUT_BUF) = b"
    and tail: "unread (s\<lparr>r := r s + 1\<rparr>) (Suc (length bs)) = bs @ [4]"
    and plain: "b \<noteq> 4" "b \<noteq> 10" "4 \<notin> set bs" "10 \<notin> set bs"
    by auto
  from Cons.prems committed_pred [of "length bs" "w s" "r s"]
  have ne: "r s \<noteq> w s" and more: "length bs < unat (w s - (r s + 1))"
    by auto
  from Cons.prems obtain m1 where c1: "either_copyout user_dst dst b m = Some m1"
    and crest: "copy_all user_dst (dst + 1) bs m1 = Some m'"
    by (auto split: option.splits)
  from Cons.prems pos have room: "int (length bs) < sint (n - 1)"
    by (simp add: sint_pred)
  have ih: "consoleread_loop P killed target user_dst (dst + 1) (n - 1) (s\<lparr>r := r s + 1\<rparr>) m1
        = (Returned (target - (n - 1 - of_nat (length bs))),
           (if n - 1 - of_nat (length bs) < target
            then s\<lparr>r := r s + 1\<rparr>\<lparr>r := r (s\<lparr>r := r s + 1\<rparr>) + of_nat (length bs)\<rparr>
            else s\<lparr>r := r s + 1\<rparr>\<lparr>r := r (s\<lparr>r := r s + 1\<rparr>) + of_nat (length bs) + 1\<rparr>),
           m')"
    using Cons.IH [of "s\<lparr>r := r s + 1\<rparr>" "n - 1" "dst + 1" m1] tail plain more room crest Cons.prems
    by simp
  have unfold: "consoleread_loop P killed target user_dst dst n s m
      = consoleread_loop P killed target user_dst (dst + 1) (n - 1) (s\<lparr>r := r s + 1\<rparr>) m1"
    using pos ne head plain c1 Cons.prems
    by (simp add: consoleread_loop.simps[of P killed target user_dst dst n s m]
          next_char_eq_ctrl_D next_char_eq_newline cbuf_next_char)
  have alg: "n - 1 - of_nat (length bs) = n - of_nat (length (b # bs))"
    "r s + 1 + of_nat (length bs) = r s + of_nat (length (b # bs))"
    by simp_all
  show ?case
    unfolding unfold ih by (simp only: alg) simp
qed

lemma unread_append:
  "unread s (k + j) = unread s k @ unread (s\<lparr>r := r s + of_nat k\<rparr>) j"
proof (induction k arbitrary: s)
  case 0
  show ?case by simp
next
  case (Suc k)
  show ?case
    using Suc [of "s\<lparr>r := r s + 1\<rparr>"] by (simp add: add.assoc)
qed

lemma length_unread: "length (unread s k) = k"
  by (induction k arbitrary: s) simp_all

lemma transferred_less:
  assumes "0 < k" and "int k < sint (n :: 32 word)"
  shows "n - of_nat k < n"
proof -
  have up: "sint n < 2 ^ 31" using sint_lt [of n] by simp
  from assms have pos: "0 \<le> sint n" by simp
  have "uint n = take_bit 32 (sint n)"
    using uint_sint [of n] by simp
  also have "\<dots> = sint n"
    using pos up by (simp add: take_bit_int_eq_self)
  finally have un: "uint n = sint n" .
  from assms up have k32: "k < 2 ^ 32" by simp
  then have uk: "unat (of_nat k :: 32 word) = k"
    by (simp add: unat_of_nat)
  have "unat n = nat (sint n)" using un by (simp add: unat_eq_nat_uint)
  with assms have kn: "k < unat n" by simp
  then have le: "(of_nat k :: 32 word) \<le> n"
    using uk by (simp add: word_le_nat_alt)
  then have "unat (n - of_nat k) = unat n - k"
    using uk by (simp add: unat_sub)
  with kn assms(1) show ?thesis
    by (simp add: word_less_nat_alt)
qed

text \<open>The equations that run the driver on concrete input.\<close>

lemmas run_defs =
  consoleread_def consoleintr_def consoleintr_edit_def consoleintr_store_def consoleinit_def
  linux_params_def kernel_mem_def INPUT_BUF_def ctrl_D_def ctrl_H_def ctrl_P_def ctrl_U_def
  consputc_def BACKSPACE_def uartputc_sync_def wakeup_def procdump_def either_copyout_def
  next_char_def Let_def word_sless_alt consoleread_loop.simps kill_line.simps

subsection \<open>consoleread: end of file, a killed caller, a failing copy\<close>

text \<open>
  C5. A call of \<open>consoleread\<close> in canonical mode that finds the committed bytes \<open>bs\<close>
  (none of them a control-D or a newline, fewer than \<open>n\<close>, each copied out without
  fault) followed by a control-D. When \<open>bs\<close> is empty, so that the control-D is the
  first byte of the call, the call returns 0 and the control-D is consumed (\<open>r\<close> has
  advanced by one). When bytes have been transferred, the call returns their number,
  \<open>r\<close> has advanced by that number only, so that it points at the control-D again, and
  the next call (any \<open>n2 > 0\<close>) finds the control-D first, returns 0 and consumes it.
  In both cases the memory of the caller holds the bytes of \<open>bs\<close> and nothing else is
  written: the control-D is not copied.
\<close>

theorem consoleread_eof:
  assumes canonical: "c_lflag (termios s) AND ICANON P \<noteq> 0"
    and line: "unread s (Suc (length bs)) = bs @ [4]"
    and plain: "4 \<notin> set bs" "10 \<notin> set bs"
    and committed: "length bs < unat (w s - r s)"
    and room: "int (length bs) < sint n"
    and copied: "copy_all user_dst dst bs m = Some m'"
  shows "consoleread P killed user_dst dst n s m
           = (Returned (of_nat (length bs)),
              (if bs = [] then s\<lparr>r := r s + 1\<rparr> else s\<lparr>r := r s + of_nat (length bs)\<rparr>),
              m')
         \<and> (bs \<noteq> [] \<and> 0 <s n2 \<longrightarrow>
              consoleread P killed2 user_dst2 dst2 n2 (s\<lparr>r := r s + of_nat (length bs)\<rparr>) m2
                = (Returned 0, s\<lparr>r := r s + of_nat (length bs) + 1\<rparr>, m2))"
proof -
  note run = consoleread_loop_line [OF canonical line plain committed room copied, of killed n]
  have first: "consoleread P killed user_dst dst n s m
           = (Returned (of_nat (length bs)),
              (if bs = [] then s\<lparr>r := r s + 1\<rparr> else s\<lparr>r := r s + of_nat (length bs)\<rparr>),
              m')"
  proof (cases "bs = []")
    case True
    with run show ?thesis by (simp add: consoleread_def)
  next
    case False
    then have "0 < length bs" by simp
    then have "n - of_nat (length bs) < n"
      using room by (rule transferred_less)
    with run False show ?thesis by (simp add: consoleread_def)
  qed
  have again: "consoleread P killed2 user_dst2 dst2 n2 (s\<lparr>r := r s + of_nat (length bs)\<rparr>) m2
                = (Returned 0, s\<lparr>r := r s + of_nat (length bs) + 1\<rparr>, m2)"
    if pos: "0 <s n2"
  proof -
    let ?t = "s\<lparr>r := r s + of_nat (length bs)\<rparr>"
    have "unread s (length bs + 1) = unread s (length bs) @ unread ?t 1"
      by (rule unread_append)
    with line have "bs @ [4] = unread s (length bs) @ unread ?t 1"
      by simp
    then have "unread ?t 1 = [4]"
      by (simp add: append_eq_append_conv length_unread)
    then have at: "buf ?t ! (unat (r ?t) mod INPUT_BUF) = 4"
      by simp
    have "unat (of_nat (length bs) :: 32 word) \<le> length bs"
      by (simp add: unat_of_nat)
    with committed have "of_nat (length bs) \<noteq> w s - r s"
      by auto
    then have ne: "r ?t \<noteq> w ?t"
      by (auto simp: algebra_simps)
    from canonical have can: "c_lflag (termios ?t) AND ICANON P \<noteq> 0"
      by simp
    show ?thesis
      using consoleread_loop_eof [OF pos ne at can, of killed2 n2 user_dst2 dst2 m2]
      by (simp add: consoleread_def)
  qed
  from first again show ?thesis by simp
qed

theorem consoleread_eof_witness:
  "c_lflag (termios (feed linux_params [0x61, 0x62, 4] (consoleinit linux_params)))
       AND ICANON linux_params \<noteq> 0
   \<and> unread (feed linux_params [0x61, 0x62, 4] (consoleinit linux_params)) (Suc (Suc (Suc 0)))
       = [0x61, 0x62, 4]
   \<and> 2 < unat (w (feed linux_params [0x61, 0x62, 4] (consoleinit linux_params))
               - r (feed linux_params [0x61, 0x62, 4] (consoleinit linux_params)))
   \<and> copy_all 0 0x1000 [0x61, 0x62] kernel_mem
       = Some (kernel_mem\<lparr>bytes := (bytes kernel_mem)(0x1000 := 0x61, 0x1001 := 0x62)\<rparr>)
   \<and> consoleread linux_params False 0 0x1000 16
         (feed linux_params [0x61, 0x62, 4] (consoleinit linux_params)) kernel_mem
       = (Returned 2, feed linux_params [0x61, 0x62, 4] (consoleinit linux_params)\<lparr>r := 2\<rparr>,
          kernel_mem\<lparr>bytes := (bytes kernel_mem)(0x1000 := 0x61, 0x1001 := 0x62)\<rparr>)
   \<and> consoleread linux_params False 0 0x1000 16
         (feed linux_params [0x61, 0x62, 4] (consoleinit linux_params)\<lparr>r := 2\<rparr>)
         (kernel_mem\<lparr>bytes := (bytes kernel_mem)(0x1000 := 0x61, 0x1001 := 0x62)\<rparr>)
       = (Returned 0, feed linux_params [0x61, 0x62, 4] (consoleinit linux_params)\<lparr>r := 3\<rparr>,
          kernel_mem\<lparr>bytes := (bytes kernel_mem)(0x1000 := 0x61, 0x1001 := 0x62)\<rparr>)"
  using consoleread_eof [of "feed linux_params [0x61, 0x62, 4] (consoleinit linux_params)" linux_params
      "[0x61, 0x62]" 16 0 "0x1000" kernel_mem
      "kernel_mem\<lparr>bytes := (bytes kernel_mem)(0x1000 := 0x61, 0x1001 := 0x62)\<rparr>"
      False 16 False 0 "0x1000"
      "kernel_mem\<lparr>bytes := (bytes kernel_mem)(0x1000 := 0x61, 0x1001 := 0x62)\<rparr>"]
  by (simp add: feed_def run_defs)

text \<open>
  C6. When \<open>consoleread\<close> finds \<open>cons.r = cons.w\<close> and the caller is killed, it returns
  \<open>-1\<close>, at the start of a call as well as after bytes have been copied in the same call
  (any \<open>target\<close>, \<open>dst\<close> and \<open>n > 0\<close>), and it leaves \<open>cons\<close> as it found it.
\<close>

theorem consoleread_killed:
  assumes "0 <s n" and "r s = w s"
  shows "consoleread_loop P True target user_dst dst n s m = (Returned (- 1), s, m)
         \<and> consoleread P True user_dst dst n s m = (Returned (- 1), s, m)"
  using assms
  by (simp add: consoleread_def consoleread_loop.simps[of P True target user_dst dst n s m]
        consoleread_loop.simps[of P True n user_dst dst n s m])

theorem consoleread_killed_witness:
  "0 <s (1 :: 32 word)
   \<and> r (consoleintr linux_params 0x61 (consoleinit linux_params)\<lparr>r := 1\<rparr>)
       = w (consoleintr linux_params 0x61 (consoleinit linux_params)\<lparr>r := 1\<rparr>)
   \<and> consoleread_loop linux_params True 2 0 0x1001 1
         (consoleintr linux_params 0x61 (consoleinit linux_params)\<lparr>r := 1\<rparr>)
         (kernel_mem\<lparr>bytes := (bytes kernel_mem)(0x1000 := 0x61)\<rparr>)
       = (Returned (- 1), consoleintr linux_params 0x61 (consoleinit linux_params)\<lparr>r := 1\<rparr>,
          kernel_mem\<lparr>bytes := (bytes kernel_mem)(0x1000 := 0x61)\<rparr>)
   \<and> consoleread linux_params True 0 0x1000 2
         (consoleintr linux_params 0x61 (consoleinit linux_params)) kernel_mem
       = (Returned (- 1), consoleintr linux_params 0x61 (consoleinit linux_params)\<lparr>r := 1\<rparr>,
          kernel_mem\<lparr>bytes := (bytes kernel_mem)(0x1000 := 0x61)\<rparr>)"
  using consoleread_killed [of 1 "consoleintr linux_params 0x61 (consoleinit linux_params)\<lparr>r := 1\<rparr>"
      linux_params 2 0 "0x1001" "kernel_mem\<lparr>bytes := (bytes kernel_mem)(0x1000 := 0x61)\<rparr>"]
  by (simp add: run_defs)



subsection \<open>consoleintr on a full buffer\<close>

text \<open>
  C7. When the buffer is full (\<open>e - r = INPUT_BUF\<close>) and the character is not one that
  the \<open>switch\<close> of canonical mode acts on, \<open>consoleintr\<close> changes nothing: no slot
  of the buffer, no index and no flag changes, and nothing is sent to the uart and
  nobody is woken, whatever the echo flag says.
\<close>

theorem consoleintr_full_drops:
  assumes "e s - r s = 128"
    and "c_lflag (termios s) AND ICANON P = 0
         \<or> (c \<noteq> ctrl_P \<and> c \<noteq> ctrl_U \<and> c \<noteq> ctrl_H \<and> c \<noteq> 0x7f)"
  shows "consoleintr P c s = s"
proof -
  from assms(2) have "consoleintr_edit P c s = s"
    by (auto simp: consoleintr_edit_def)
  moreover from assms(1) have "consoleintr_store P c s = s"
    by (simp add: consoleintr_store_def)
  ultimately show ?thesis
    by (simp add: consoleintr_def)
qed

theorem consoleintr_full_drops_witness:
  "e (consoleinit linux_params\<lparr>w := 128, e := 128\<rparr>) - r (consoleinit linux_params\<lparr>w := 128, e := 128\<rparr>) = 128
   \<and> (0x61 :: 32 word) \<noteq> ctrl_P \<and> (0x61 :: 32 word) \<noteq> ctrl_U \<and> (0x61 :: 32 word) \<noteq> ctrl_H
   \<and> (0x61 :: 32 word) \<noteq> 0x7f
   \<and> consoleintr linux_params 0x61 (consoleinit linux_params\<lparr>w := 128, e := 128\<rparr>)
       = consoleinit linux_params\<lparr>w := 128, e := 128\<rparr>"
  using consoleintr_full_drops [of "consoleinit linux_params\<lparr>w := 128, e := 128\<rparr>" linux_params "0x61"]
  by (simp add: consoleinit_def ctrl_P_def ctrl_U_def ctrl_H_def)

subsection \<open>consoleioctl\<close>

text \<open>
  C8. A request that is neither \<open>TCGETA\<close> nor \<open>TCSETA\<close> makes \<open>consoleioctl\<close> return
  \<open>-1\<close>; \<open>cons\<close> and the memory of the caller are unchanged.
\<close>

theorem consoleioctl_unknown_request:
  "req \<noteq> TCGETA P \<Longrightarrow> req \<noteq> TCSETA P \<Longrightarrow> consoleioctl P req ttyctl tm s = (- 1, tm, s)"
  by (simp add: consoleioctl_def)

theorem consoleioctl_unknown_request_witness:
  "(0x5401 :: 32 word) \<noteq> TCGETA linux_params \<and> (0x5401 :: 32 word) \<noteq> TCSETA linux_params
   \<and> consoleioctl linux_params 0x5401 0x2000 (\<lambda>a. None) (consoleinit linux_params)
       = (- 1, (\<lambda>a. None), consoleinit linux_params)"
  using consoleioctl_unknown_request [of "0x5401" linux_params "0x2000" "\<lambda>a. None" "consoleinit linux_params"]
  by (simp add: linux_params_def)

subsection \<open>The indices\<close>

text \<open>
  C1, as the code has it. In every reachable state \<open>cons.r\<close>, \<open>cons.w\<close> and \<open>cons.e\<close> are
  the values modulo \<open>2 ^ 32\<close> of three counters \<open>R \<le> W \<le> E\<close> with \<open>E - R \<le> INPUT_BUF\<close>;
  in the arithmetic of \<open>uint\<close>, \<open>cons.w - cons.r \<le> cons.e - cons.r \<le> INPUT_BUF\<close>; and
  \<open>cons.r \<le> cons.w \<le> cons.e\<close> holds of the fields themselves as long as \<open>cons.e\<close> has
  not wrapped around past \<open>cons.r\<close>.
\<close>

theorem console_indices_invariant:
  assumes "reachable P (s, sl)"
  shows "(\<exists>R W E :: nat. R \<le> W \<and> W \<le> E \<and> E - R \<le> INPUT_BUF
            \<and> r s = of_nat R \<and> w s = of_nat W \<and> e s = of_nat E)
    \<and> w s - r s \<le> e s - r s \<and> e s - r s \<le> 128
    \<and> (r s \<le> e s \<longrightarrow> r s \<le> w s \<and> w s \<le> e s)"
proof -
  from assms have "cons_inv s" by (rule reachable_inv)
  then have eq: "w s = e s" and le: "e s - r s \<le> 128"
    by (simp_all add: cons_inv_def)
  from le have "unat (e s - r s) \<le> 128"
    by (simp add: word_le_nat_alt)
  moreover have "e s = of_nat (unat (r s) + unat (e s - r s))"
    by simp
  ultimately have "\<exists>R W E :: nat. R \<le> W \<and> W \<le> E \<and> E - R \<le> INPUT_BUF
            \<and> r s = of_nat R \<and> w s = of_nat W \<and> e s = of_nat E"
    using eq
    by (intro exI[of _ "unat (r s)"] exI[of _ "unat (r s) + unat (e s - r s)"])
       (simp add: INPUT_BUF_def)
  with eq le show ?thesis by simp
qed

theorem console_indices_invariant_witness:
  "reachable linux_params (consoleintr linux_params 0x61 (consoleinit linux_params), [])
   \<and> r (consoleintr linux_params 0x61 (consoleinit linux_params)) = 0
   \<and> w (consoleintr linux_params 0x61 (consoleinit linux_params)) = 1
   \<and> e (consoleintr linux_params 0x61 (consoleinit linux_params)) = 1
   \<and> e (consoleintr linux_params 0x61 (consoleinit linux_params))
       - r (consoleintr linux_params 0x61 (consoleinit linux_params)) \<le> 128"
proof -
  have reach: "reachable linux_params (consoleintr linux_params 0x61 (consoleinit linux_params), [])"
    by (rule reachable.intr [OF reachable.init])
  from console_indices_invariant [OF reach] reach show ?thesis
    by (simp add: run_defs)
qed

text \<open>
  After a key press on an empty buffer the character is in the slot of \<open>e\<close>, and a
  read of one byte takes it out again: any number of such rounds is a run of the console.
\<close>

lemma consoleintr_accepts:
  assumes "w s = e s" and "r s = e s"
  shows "r (consoleintr P 0x61 s) = r s \<and> w (consoleintr P 0x61 s) = e s + 1
    \<and> e (consoleintr P 0x61 s) = e s + 1
    \<and> buf (consoleintr P 0x61 s) = (buf s)[unat (e s) mod INPUT_BUF := 0x61]
    \<and> termios (consoleintr P 0x61 s) = termios s"
  using assms
  by (simp add: consoleintr_def consoleintr_edit_committed consoleintr_store_def Let_def
        wakeup_def consputc_def uartputc_sync_def procdump_def ctrl_P_def ctrl_D_def)

lemma type_and_read_step:
  assumes inv: "cons_inv s" and empty: "r s = e s"
  shows "consoleread P False 0 0 1 (consoleintr P 0x61 s) kernel_mem
           = (Returned 1, type_and_read P s, snd (snd (consoleread P False 0 0 1 (consoleintr P 0x61 s) kernel_mem)))
         \<and> r (type_and_read P s) = r s + 1 \<and> w (type_and_read P s) = r s + 1
         \<and> e (type_and_read P s) = r s + 1"
proof -
  from inv have eq: "w s = e s" and len: "length (buf s) = INPUT_BUF"
    by (simp_all add: cons_inv_def)
  note acc = consoleintr_accepts [OF eq empty, of P]
  have idx: "unat (e s) mod INPUT_BUF < length (buf s)"
    using len by (simp add: INPUT_BUF_def)
  have nc: "next_char (consoleintr P 0x61 s) = 0x61"
    using acc empty idx by (simp add: next_char_def)
  have ne: "r (consoleintr P 0x61 s) \<noteq> w (consoleintr P 0x61 s)"
    using acc empty by simp
  have run: "consoleread P False 0 0 1 (consoleintr P 0x61 s) kernel_mem
      = (Returned 1, (consoleintr P 0x61 s)\<lparr>r := r s + 1\<rparr>,
         kernel_mem\<lparr>bytes := (bytes kernel_mem)(0 := 0x61)\<rparr>)"
    using nc ne acc
    by (simp add: consoleread_def consoleread_loop.simps[of _ _ _ _ _ 1]
          consoleread_loop.simps[of _ _ _ _ _ 0] ctrl_D_def either_copyout_def word_sless_alt)
  then have tr: "type_and_read P s = (consoleintr P 0x61 s)\<lparr>r := r s + 1\<rparr>"
    by (simp add: type_and_read_def)
  show ?thesis
    using acc empty by (simp add: run tr)
qed

lemma rounds_reachable:
  "reachable P ((type_and_read P ^^ k) (consoleinit P), [])
   \<and> r ((type_and_read P ^^ k) (consoleinit P)) = of_nat k
   \<and> w ((type_and_read P ^^ k) (consoleinit P)) = of_nat k
   \<and> e ((type_and_read P ^^ k) (consoleinit P)) = of_nat k"
proof (induction k)
  case 0
  show ?case
    by (simp add: reachable.init) (simp add: consoleinit_def)
next
  case (Suc k)
  let ?s = "(type_and_read P ^^ k) (consoleinit P)"
  from Suc have reach: "reachable P (?s, [])" and idx: "r ?s = of_nat k" "e ?s = of_nat k"
    by simp_all
  from reach have inv: "cons_inv ?s" by (rule reachable_inv)
  from idx have empty: "r ?s = e ?s" by simp
  note step = type_and_read_step [OF inv empty, of P]
  have "reachable P (consoleintr P 0x61 ?s, [])"
    using reach by (rule reachable.intr)
  then have "reachable P (type_and_read P ?s, [])"
    using step by (blast intro: reachable.read_returns)
  with step idx show ?case
    by simp
qed

text \<open>
  C1, as the spec states it of the fields (\<open>cons.r \<le> cons.w \<le> cons.e\<close>), fails: after
  \<open>2 ^ 32 - 1\<close> rounds of one key press and one read all three indices are
  \<open>0xFFFFFFFF\<close>; one more key press makes \<open>cons.e\<close> and \<open>cons.w\<close> wrap to 0 while
  \<open>cons.r\<close> stays, so \<open>cons.r \<le> cons.w\<close> is false in a reachable state.
\<close>

theorem indices_wrap_counterexample:
  "reachable linux_params (wrapped, []) \<and> \<not> r wrapped \<le> w wrapped"
proof -
  let ?s = "(type_and_read linux_params ^^ 4294967295) (consoleinit linux_params)"
  note rr = rounds_reachable [of linux_params 4294967295]
  from rr have reach: "reachable linux_params (?s, [])"
    and idx: "r ?s = 4294967295" "w ?s = 4294967295" "e ?s = 4294967295"
    by simp_all
  have "reachable linux_params (consoleintr linux_params 0x61 ?s, [])"
    using reach by (rule reachable.intr)
  moreover have "r (consoleintr linux_params 0x61 ?s) = 4294967295"
    and "w (consoleintr linux_params 0x61 ?s) = 0"
    using consoleintr_accepts [of ?s linux_params] idx by simp_all
  ultimately show ?thesis
    by (simp add: wrapped_def)
qed

text \<open>
  C9. In every reachable state \<open>cons.w = cons.e\<close>, whatever the mode. So the loop of
  kill-line and the backspace branch, both guarded by \<open>cons.e != cons.w\<close>, do nothing:
  the \<open>switch\<close> of \<open>consoleintr\<close> changes the state only by the call of \<open>procdump\<close>.
  \<open>consoleintr\<close> leaves \<open>cons.e\<close> as it is or adds one to it; a character that is not 0
  and finds room is stored, committed (\<open>w = e\<close>) and followed by a \<open>wakeup\<close>; and
  \<open>consoleread\<close>, \<open>consolewrite\<close> and \<open>consoleioctl\<close> do not change \<open>cons.e\<close>.
  That \<open>consoleintr\<close> keeps \<open>cons.w = cons.e\<close> does not depend on the flags: it holds
  from any state \<open>t\<close>, in canonical mode or not.
\<close>

theorem committed_equals_edit:
  assumes "reachable P (s, sl)"
  shows "w s = e s
    \<and> kill_line s = s
    \<and> consoleintr_edit P c s
        = (if c_lflag (termios s) AND ICANON P \<noteq> 0 \<and> c = ctrl_P then procdump s else s)
    \<and> (e (consoleintr P c s) = e s \<or> e (consoleintr P c s) = e s + 1)
    \<and> (c \<noteq> 0 \<and> e s - r s < 128 \<longrightarrow>
         e (consoleintr P c s) = e s + 1 \<and> w (consoleintr P c s) = e s + 1
         \<and> last (out (consoleintr P c s)) = Wakeup)
    \<and> e (fst (snd (consoleread_loop P killed target user_dst dst n s m))) = e s
    \<and> e (snd (consolewrite user_src src k m s)) = e s
    \<and> e (snd (snd (consoleioctl P req ttyctl tm s))) = e s
    \<and> (w t = e t \<longrightarrow> w (consoleintr P c t) = e (consoleintr P c t))"
proof -
  from assms have "cons_inv s" by (rule reachable_inv)
  then have eq: "w s = e s" by (simp add: cons_inv_def)
  then have edit: "consoleintr_edit P c s
        = (if c_lflag (termios s) AND ICANON P \<noteq> 0 \<and> c = ctrl_P then procdump s else s)"
    by (rule consoleintr_edit_committed)
  then have same: "e (consoleintr_edit P c s) = e s" "r (consoleintr_edit P c s) = r s"
    by (simp_all add: procdump_def)
  then have step: "e (consoleintr P c s) = e s \<or> e (consoleintr P c s) = e s + 1"
    using consoleintr_store_e[of P c "consoleintr_edit P c s"] by (simp add: consoleintr_def)
  have acc: "c \<noteq> 0 \<and> e s - r s < 128 \<longrightarrow>
         e (consoleintr P c s) = e s + 1 \<and> w (consoleintr P c s) = e s + 1
         \<and> last (out (consoleintr P c s)) = Wakeup"
    using consoleintr_store_accepts[of c "consoleintr_edit P c s" P] same
    by (simp add: consoleintr_def)
  from eq edit step acc show ?thesis
    by (simp add: kill_line_committed consoleread_loop_e consolewrite_e consoleioctl_console
          consoleintr_commits)
qed

theorem committed_equals_edit_witness:
  "reachable linux_params (consoleintr linux_params 0x61 (consoleinit linux_params), [])
   \<and> w (consoleintr linux_params 0x61 (consoleinit linux_params)) = 1
   \<and> e (consoleintr linux_params 0x61 (consoleinit linux_params)) = 1
   \<and> consoleintr_edit linux_params 0x7f (consoleintr linux_params 0x61 (consoleinit linux_params))
       = consoleintr linux_params 0x61 (consoleinit linux_params)
   \<and> e (consoleintr linux_params 0x7f (consoleintr linux_params 0x61 (consoleinit linux_params))) = 2
   \<and> c_lflag (termios (consoleinit linux_params\<lparr>termios := \<lparr>c_lflag = 0\<rparr>\<rparr>)) AND ICANON linux_params = 0
   \<and> w (consoleinit linux_params\<lparr>termios := \<lparr>c_lflag = 0\<rparr>\<rparr>)
       = e (consoleinit linux_params\<lparr>termios := \<lparr>c_lflag = 0\<rparr>\<rparr>)
   \<and> w (consoleintr linux_params 0x7f (consoleinit linux_params\<lparr>termios := \<lparr>c_lflag = 0\<rparr>\<rparr>)) = 1
   \<and> e (consoleintr linux_params 0x7f (consoleinit linux_params\<lparr>termios := \<lparr>c_lflag = 0\<rparr>\<rparr>)) = 1"
proof -
  have reach: "reachable linux_params (consoleintr linux_params 0x61 (consoleinit linux_params), [])"
    by (rule reachable.intr [OF reachable.init])
  from committed_equals_edit [OF reach,
      where c = "0x7f" and t = "consoleinit linux_params\<lparr>termios := \<lparr>c_lflag = 0\<rparr>\<rparr>"] reach
  show ?thesis
    by (simp add: run_defs)
qed

subsection \<open>Where the driver departs from its description\<close>

text \<open>
  C2. The header of the source announces control-h as backspace. On the console as
  \<open>consoleinit\<close> leaves it (canonical mode), the characters \<open>a b DEL c newline\<close> followed
  by a read of 16 bytes deliver the five bytes \<open>a b DEL c newline\<close>, and a read of 3
  bytes delivers \<open>a b DEL\<close>: the \<open>b\<close> is not erased and the \<open>DEL\<close> itself is stored.
  With a space typed between \<open>DEL\<close> and \<open>c\<close> six bytes are delivered, and control-h in
  the place of \<open>DEL\<close> is stored in the same way.
\<close>

theorem backspace_is_stored:
  "fst (consoleread linux_params False 0 0x1000 16
          (feed linux_params [0x61, 0x62, 0x7f, 0x63, 0x0a] (consoleinit linux_params)) kernel_mem)
     = Returned 5
   \<and> map (bytes (snd (snd (consoleread linux_params False 0 0x1000 16
          (feed linux_params [0x61, 0x62, 0x7f, 0x63, 0x0a] (consoleinit linux_params)) kernel_mem))))
         [0x1000, 0x1001, 0x1002, 0x1003, 0x1004]
     = [0x61, 0x62, 0x7f, 0x63, 0x0a]
   \<and> fst (consoleread linux_params False 0 0x1000 3
          (feed linux_params [0x61, 0x62, 0x7f, 0x63, 0x0a] (consoleinit linux_params)) kernel_mem)
     = Returned 3
   \<and> map (bytes (snd (snd (consoleread linux_params False 0 0x1000 3
          (feed linux_params [0x61, 0x62, 0x7f, 0x63, 0x0a] (consoleinit linux_params)) kernel_mem))))
         [0x1000, 0x1001, 0x1002]
     = [0x61, 0x62, 0x7f]
   \<and> fst (consoleread linux_params False 0 0x1000 16
          (feed linux_params [0x61, 0x62, 0x7f, 0x20, 0x63, 0x0a] (consoleinit linux_params)) kernel_mem)
     = Returned 6
   \<and> map (bytes (snd (snd (consoleread linux_params False 0 0x1000 16
          (feed linux_params [0x61, 0x62, 0x08, 0x63, 0x0a] (consoleinit linux_params)) kernel_mem))))
         [0x1000, 0x1001, 0x1002, 0x1003, 0x1004]
     = [0x61, 0x62, 0x08, 0x63, 0x0a]"
  by (simp add: feed_def run_defs)

text \<open>
  C3. The header of the source announces control-u as kill line. On the console as
  \<open>consoleinit\<close> leaves it, the characters \<open>h e l l o control-u h i newline\<close> followed by
  a read of 16 bytes deliver all nine bytes, the control-u among them.
\<close>

theorem kill_line_is_stored:
  "fst (consoleread linux_params False 0 0x1000 16
          (feed linux_params [0x68, 0x65, 0x6c, 0x6c, 0x6f, 0x15, 0x68, 0x69, 0x0a]
             (consoleinit linux_params)) kernel_mem)
     = Returned 9
   \<and> map (bytes (snd (snd (consoleread linux_params False 0 0x1000 16
          (feed linux_params [0x68, 0x65, 0x6c, 0x6c, 0x6f, 0x15, 0x68, 0x69, 0x0a]
             (consoleinit linux_params)) kernel_mem))))
         [0x1000, 0x1001, 0x1002, 0x1003, 0x1004, 0x1005, 0x1006, 0x1007, 0x1008]
     = [0x68, 0x65, 0x6c, 0x6c, 0x6f, 0x15, 0x68, 0x69, 0x0a]"
  by (simp add: feed_def run_defs)

text \<open>
  C4. \<open>consoleioctl\<close> with \<open>TCSETA\<close> and a pointer to a \<open>struct termios\<close> without flags
  leaves \<open>cons.termios\<close> at \<open>ECHO | ICANON\<close>. It returns \<open>-1\<close> when the user address whose
  number is the address of \<open>cons.termios\<close> is not mapped, and 0 when it is; in both
  cases \<open>cons\<close> is unchanged, and the next character is still echoed.
\<close>

theorem TCSETA_leaves_termios:
  "copyin_termios 0x2000 raw_request = Some \<lparr>c_lflag = 0\<rparr>
   \<and> consoleioctl linux_params (TCSETA linux_params) 0x2000 raw_request (consoleinit linux_params)
       = (- 1, raw_request, consoleinit linux_params)
   \<and> consoleioctl linux_params (TCSETA linux_params) 0x2000
         (raw_request(cons_termios_addr linux_params \<mapsto> \<lparr>c_lflag = 0\<rparr>)) (consoleinit linux_params)
       = (0, raw_request(cons_termios_addr linux_params \<mapsto> \<lparr>c_lflag = 0\<rparr>), consoleinit linux_params)
   \<and> c_lflag (termios (consoleinit linux_params)) = 10
   \<and> out (consoleintr linux_params 0x61 (snd (snd
         (consoleioctl linux_params (TCSETA linux_params) 0x2000
            (raw_request(cons_termios_addr linux_params \<mapsto> \<lparr>c_lflag = 0\<rparr>)) (consoleinit linux_params)))))
       = [Uartinit, Printf 10, Uartputc_sync 0x61, Wakeup]"
  by (simp add: consoleioctl_def copyin_termios_def raw_request_def run_defs)

end
